theory Spec2Isabelle
  imports Main "HOL-Library.Word"
begin

section \<open>Durations, errors and the Backoff capability\<close>

text \<open>
  \<^verbatim>\<open>time.Duration\<close> is Go's \<^verbatim>\<open>int64\<close>: a 64-bit word read as two's complement.
  Addition, subtraction and multiplication wrap around; the comparisons of the source
  are the signed ones (\<open>\<le>s\<close>, \<open><s\<close>). The counter of \<^verbatim>\<open>WithMaxRetries\<close> and
  the percentage of \<^verbatim>\<open>WithJitterPercent\<close> are \<^verbatim>\<open>uint64\<close>: the same words, compared
  unsigned.
\<close>

type_synonym duration = "64 word"

text \<open>
  A Go \<^verbatim>\<open>error\<close> is an interface value: \<^verbatim>\<open>nil\<close>, or a value with a message that
  may unwrap to a further error. Three shapes are enough for this package: an error
  that wraps nothing (\<^verbatim>\<open>errors.New\<close>), a foreign error that wraps another one
  (\<^verbatim>\<open>fmt.Errorf\<close> with \<^verbatim>\<open>%w\<close>; its message is whatever the wrapper printed), and
  the package's own \<^verbatim>\<open>&retryableError{err}\<close>, whose field may be \<^verbatim>\<open>nil\<close>.
\<close>

datatype err =
    Leaf string
  | Wrap string err
  | retryableError "err option"

type_synonym error = "err option"

text \<open>A call either panics or returns its pair of results.\<close>

datatype panic = Panic string

type_synonym outcome = "panic + duration \<times> error"

text \<open>
  \<^verbatim>\<open>Backoff\<close> is the interface with the single method \<^verbatim>\<open>Next(err)\<close>. An
  implementation may keep state between calls, so \<^verbatim>\<open>Next\<close> is a transformer of the
  implementation's state \<open>'s\<close>. \<^verbatim>\<open>BackoffFunc\<close> adapts a function to the interface by
  calling it, which is the identity here.
\<close>

type_synonym 's Backoff = "error \<Rightarrow> 's \<Rightarrow> outcome \<times> 's"

definition Stop :: duration where
  "Stop = - 1"

definition IsStopped :: "duration \<Rightarrow> bool" where
  "IsStopped delay \<longleftrightarrow> delay <s 0"

section \<open>The retryable mark\<close>

definition RetryableError :: "error \<Rightarrow> error" where
  "RetryableError err = (case err of None \<Rightarrow> None | Some e \<Rightarrow> Some (retryableError (Some e)))"

text \<open>
  \<^verbatim>\<open>Unwrap\<close> and \<^verbatim>\<open>Error\<close>. The source defines both on \<^verbatim>\<open>*retryableError\<close>; the
  other two shapes answer as the standard library's errors do.
\<close>

fun Unwrap :: "err \<Rightarrow> error" where
  "Unwrap (Leaf m) = None"
| "Unwrap (Wrap m e) = Some e"
| "Unwrap (retryableError inner) = inner"

fun Error :: "err \<Rightarrow> string" where
  "Error (Leaf m) = m"
| "Error (Wrap m e) = m"
| "Error (retryableError None) = ''retryable: <nil>''"
| "Error (retryableError (Some e)) = ''retryable: '' @ Error e"

text \<open>
  \<^verbatim>\<open>errors.As(err, &rerr)\<close> with \<^verbatim>\<open>rerr\<close> of type \<^verbatim>\<open>*retryableError\<close>: false on
  \<^verbatim>\<open>nil\<close>; otherwise it walks the \<^verbatim>\<open>Unwrap\<close> chain and stores the first error of the
  target type. The result is \<open>None\<close> for false and \<open>Some\<close> of the stored pointer for
  true.
\<close>

fun As_chain :: "err \<Rightarrow> err option" where
  "As_chain (Leaf m) = None"
| "As_chain (Wrap m e) = As_chain e"
| "As_chain (retryableError inner) = Some (retryableError inner)"

definition errors_As :: "error \<Rightarrow> err option" where
  "errors_As err = (case err of None \<Rightarrow> None | Some e \<Rightarrow> As_chain e)"

text \<open>The errors met along the \<^verbatim>\<open>Unwrap\<close> chain of an error, itself first.\<close>

fun chain :: "err \<Rightarrow> err list" where
  "chain (Leaf m) = [Leaf m]"
| "chain (Wrap m e) = Wrap m e # chain e"
| "chain (retryableError None) = [retryableError None]"
| "chain (retryableError (Some e)) = retryableError (Some e) # chain e"

fun is_mark :: "err \<Rightarrow> bool" where
  "is_mark (retryableError inner) = True"
| "is_mark _ = False"

definition error_chain :: "error \<Rightarrow> err list" where
  "error_chain err = (case err of None \<Rightarrow> [] | Some e \<Rightarrow> chain e)"

section \<open>Decorators\<close>

text \<open>
  \<^verbatim>\<open>rand.Int63n(n)\<close> of the standard library panics when \<open>n \<le> 0\<close> and otherwise
  returns a number of the half-open range from 0 to \<open>n\<close>. The state of the process-wide
  source is not part of this package: \<open>raw\<close> stands for what the source yields at this
  call, and reducing it modulo \<open>n\<close> reaches every number of the range and no other.
\<close>

definition Int63n :: "nat \<Rightarrow> 64 word \<Rightarrow> panic + 64 word" where
  "Int63n raw n =
     (if n \<le>s 0 then Inl (Panic ''invalid argument to Int63n'')
      else Inr (word_of_nat (raw mod nat (sint n))))"

definition WithJitter :: "duration \<Rightarrow> 's Backoff \<Rightarrow> nat \<Rightarrow> 's Backoff" where
  "WithJitter j next raw err s =
     (case next err s of
        (Inl p, s') \<Rightarrow> (Inl p, s')
      | (Inr (delay, err'), s') \<Rightarrow>
          if IsStopped delay then (Inr (Stop, err'), s')
          else
            (case Int63n raw (j * 2) of
               Inl p \<Rightarrow> (Inl p, s')
             | Inr r \<Rightarrow>
                 let diff = r - j;
                     delay = delay + diff;
                     delay = (if IsStopped delay then 0 else delay)
                 in (Inr (delay, err'), s')))"

text \<open>
  \<^verbatim>\<open>WithJitterPercent\<close> scales the delay in floating point:
  \<^verbatim>\<open>time.Duration(float64(delay) * (1 - float64(top)/100.0))\<close>. The IEEE arithmetic
  and the conversion back to \<^verbatim>\<open>int64\<close> are left open as the parameter \<open>scale\<close>,
  which receives \<open>delay\<close> and \<open>top\<close>; everything around it is the source's.
\<close>

definition WithJitterPercent ::
  "(duration \<Rightarrow> 64 word \<Rightarrow> duration) \<Rightarrow> 64 word \<Rightarrow> 's Backoff \<Rightarrow> nat \<Rightarrow> 's Backoff" where
  "WithJitterPercent scale j next raw err s =
     (case next err s of
        (Inl p, s') \<Rightarrow> (Inl p, s')
      | (Inr (delay, err'), s') \<Rightarrow>
          if IsStopped delay then (Inr (Stop, err'), s')
          else
            (case Int63n raw (j * 2) of
               Inl p \<Rightarrow> (Inl p, s')
             | Inr r \<Rightarrow>
                 let top = r - j;
                     delay = scale delay top;
                     delay = (if IsStopped delay then 0 else delay)
                 in (Inr (delay, err'), s')))"

text \<open>
  \<^verbatim>\<open>WithMaxRetries\<close> owns the counter \<^verbatim>\<open>attempt\<close> (a \<^verbatim>\<open>uint64\<close>, initially 0): the
  state of the decorated backoff is the counter paired with the inner state. The mutex
  makes each call atomic; calls are modelled one after the other.
\<close>

definition WithMaxRetries :: "64 word \<Rightarrow> 's Backoff \<Rightarrow> (64 word \<times> 's) Backoff" where
  "WithMaxRetries maxr next err st =
     (case st of (attempt, s) \<Rightarrow>
        if attempt \<ge> maxr then (Inr (Stop, err), (attempt, s))
        else
          (let attempt = attempt + 1
           in case next err s of (r, s') \<Rightarrow> (r, (attempt, s'))))"

definition WithMaxRetries_init :: "'s \<Rightarrow> 64 word \<times> 's" where
  "WithMaxRetries_init s = (0, s)"

definition WithCappedDuration :: "duration \<Rightarrow> 's Backoff \<Rightarrow> 's Backoff" where
  "WithCappedDuration cap next err s =
     (case next err s of
        (Inl p, s') \<Rightarrow> (Inl p, s')
      | (Inr (delay, err'), s') \<Rightarrow>
          if IsStopped delay then (Inr (Stop, err'), s')
          else
            (let delay = (if delay \<le>s 0 \<or> cap <s delay then cap else delay)
             in (Inr (delay, err'), s')))"

text \<open>
  Instants are nanoseconds on the monotonic clock. \<^verbatim>\<open>time.Since(start)\<close> is
  \<^verbatim>\<open>time.Now().Sub(start)\<close>, which the standard library saturates at the least and
  the greatest \<^verbatim>\<open>Duration\<close>. \<^verbatim>\<open>WithMaxDuration\<close> reads the clock once when it is
  built (\<open>start\<close>) and once in every call (\<open>now\<close>).
\<close>

definition time_Since :: "int \<Rightarrow> int \<Rightarrow> duration" where
  "time_Since start now =
     (let d = now - start
      in if d < - (2 ^ 63) then word_of_int (- (2 ^ 63))
         else if 2 ^ 63 - 1 < d then word_of_int (2 ^ 63 - 1)
         else word_of_int d)"

definition WithMaxDuration :: "duration \<Rightarrow> int \<Rightarrow> 's Backoff \<Rightarrow> int \<Rightarrow> 's Backoff" where
  "WithMaxDuration timeout start next now err s =
     (let diff = timeout - time_Since start now
      in if diff \<le>s 0 then (Inr (Stop, err), s)
         else
           (case next err s of
              (Inl p, s') \<Rightarrow> (Inl p, s')
            | (Inr (delay, err'), s') \<Rightarrow>
                if IsStopped delay then (Inr (Stop, err'), s')
                else
                  (let delay = (if delay \<le>s 0 \<or> diff <s delay then diff else delay)
                   in (Inr (delay, err'), s'))))"

definition WithRetryable :: "'s Backoff \<Rightarrow> 's Backoff" where
  "WithRetryable next err s =
     (case errors_As err of
        None \<Rightarrow> (Inr (Stop, err), s)
      | Some rerr \<Rightarrow> next (Unwrap rerr) s)"

section \<open>The jitter decorators with a mode\<close>

text \<open>
  Modelled from the spec: \<^verbatim>\<open>WithJitter(spread, additive, inner)\<close>, the decorator with the
  boolean mode that the README and the tests call. Its implementation is missing from
  the sources, which hold the two-argument decorator only. After the spec (4.3): compute
  the inner delay; pass a stop on; otherwise add an offset of the half-open range from
  \<open>-spread\<close> to \<open>spread\<close>, or from 0 to \<open>spread\<close> when the mode is additive; replace a
  negative result by zero. The offset is drawn and added as the two-argument decorator
  does it, with \<^verbatim>\<open>rand.Int63n\<close> and \<^verbatim>\<open>int64\<close> arithmetic.
\<close>

definition WithJitter_mode :: "duration \<Rightarrow> bool \<Rightarrow> 's Backoff \<Rightarrow> nat \<Rightarrow> 's Backoff" where
  "WithJitter_mode j additive next raw err s =
     (case next err s of
        (Inl p, s') \<Rightarrow> (Inl p, s')
      | (Inr (delay, err'), s') \<Rightarrow>
          if IsStopped delay then (Inr (Stop, err'), s')
          else
            (case (if additive then Int63n raw j
                   else (case Int63n raw (j * 2) of Inl p \<Rightarrow> Inl p | Inr r \<Rightarrow> Inr (r - j))) of
               Inl p \<Rightarrow> (Inl p, s')
             | Inr diff \<Rightarrow>
                 let delay = delay + diff;
                     delay = (if IsStopped delay then 0 else delay)
                 in (Inr (delay, err'), s')))"


section \<open>Observing an inner backoff\<close>

text \<open>
  Calling a backoff once for every error of a list, in order, collecting the outcomes
  and handing the state on.
\<close>

fun calls :: "'s Backoff \<Rightarrow> error list \<Rightarrow> 's \<Rightarrow> outcome list \<times> 's" where
  "calls b [] s = ([], s)"
| "calls b (e # es) s =
     (case b e s of (r, s') \<Rightarrow> (case calls b es s' of (rs, s'') \<Rightarrow> (r # rs, s'')))"

text \<open>
  A backoff that records every error it is called with and answers a fixed delay with
  the error it was given, as the backoffs of the test suite do. Its state is the log of
  its invocations.
\<close>

definition recording :: "duration \<Rightarrow> (error list) Backoff" where
  "recording d err log = (Inr (d, err), log @ [err])"

section \<open>The retryable mark and the Retryable decorator\<close>

lemma As_chain_None: "As_chain e = None \<longleftrightarrow> \<not> list_ex is_mark (chain e)"
  by (induction e rule: chain.induct) simp_all

lemma errors_As_None: "errors_As err = None \<longleftrightarrow> \<not> list_ex is_mark (error_chain err)"
  by (cases err) (simp_all add: errors_As_def error_chain_def As_chain_None)

lemma As_chain_first:
  "chain x = pre @ retryableError inner # rest \<Longrightarrow> \<not> list_ex is_mark pre
     \<Longrightarrow> As_chain x = Some (retryableError inner)"
proof (induction x arbitrary: pre rule: chain.induct)
  case (1 m)
  then show ?case by (cases pre) simp_all
next
  case (2 m e)
  then show ?case by (cases pre) simp_all
next
  case 3
  then show ?case by (cases pre) simp_all
next
  case (4 e)
  then show ?case by (cases pre) simp_all
qed

lemma errors_As_first:
  "error_chain err = pre @ retryableError inner # rest \<Longrightarrow> \<not> list_ex is_mark pre
     \<Longrightarrow> errors_As err = Some (retryableError inner)"
  by (cases err) (simp_all add: errors_As_def error_chain_def As_chain_first)

text \<open>
  Every chain that holds a mark splits at its first mark, and what follows the mark is
  the chain of the marked error: the two cases of \<^verbatim>\<open>WithRetryable\<close> cover every error.
\<close>

lemma chain_first_mark:
  "list_ex is_mark (chain x) \<Longrightarrow>
     \<exists>pre inner. chain x = pre @ retryableError inner # error_chain inner \<and> \<not> list_ex is_mark pre"
proof (induction x rule: chain.induct)
  case (1 m)
  then show ?case by simp
next
  case (2 m e)
  then have "list_ex is_mark (chain e)" by simp
  with 2 obtain pre inner where
    "chain e = pre @ retryableError inner # error_chain inner" "\<not> list_ex is_mark pre"
    by blast
  then have "chain (Wrap m e) = (Wrap m e # pre) @ retryableError inner # error_chain inner
      \<and> \<not> list_ex is_mark (Wrap m e # pre)"
    by simp
  then show ?case by blast
next
  case 3
  have "chain (retryableError None) = [] @ retryableError None # error_chain None
      \<and> \<not> list_ex is_mark []"
    by (simp add: error_chain_def)
  then show ?case by blast
next
  case (4 e)
  have "chain (retryableError (Some e)) = [] @ retryableError (Some e) # error_chain (Some e)
      \<and> \<not> list_ex is_mark []"
    by (simp add: error_chain_def)
  then show ?case by blast
qed

text \<open>
  C8. \<^verbatim>\<open>RetryableError(nil)\<close> is \<^verbatim>\<open>nil\<close>. For a non-nil error \<open>e\<close> it is a non-nil
  tagged value whose message is \<^verbatim>\<open>"retryable: "\<close> followed by the message of \<open>e\<close> and
  whose \<^verbatim>\<open>Unwrap\<close> is \<open>e\<close>, so that the chain of the tagged value is the tag followed
  by the whole chain of \<open>e\<close>. A tagged value holding \<^verbatim>\<open>nil\<close> prints
  \<^verbatim>\<open>"retryable: <nil>"\<close>.
\<close>

theorem RetryableError_tag:
  "RetryableError None = None
   \<and> RetryableError (Some e) = Some (retryableError (Some e))
   \<and> Error (retryableError (Some e)) = ''retryable: '' @ Error e
   \<and> Error (retryableError None) = ''retryable: <nil>''
   \<and> Unwrap (retryableError (Some e)) = Some e
   \<and> error_chain (RetryableError (Some e)) = retryableError (Some e) # chain e"
  by (simp add: RetryableError_def error_chain_def)

theorem RetryableError_tag_witness:
  "RetryableError (Some (Leaf ''oops'')) = Some (retryableError (Some (Leaf ''oops'')))
   \<and> Error (retryableError (Some (Leaf ''oops''))) = ''retryable: oops''
   \<and> error_chain (RetryableError (Some (Leaf ''oops'')))
       = [retryableError (Some (Leaf ''oops'')), Leaf ''oops'']"
  using RetryableError_tag [of "Leaf ''oops''"] by (simp add: error_chain_def)

text \<open>
  C2. When no error on the chain of \<open>err\<close> is a retryable mark (\<open>err\<close> neither is nor
  wraps one), \<^verbatim>\<open>WithRetryable(inner).Next(err)\<close> returns \<^verbatim>\<open>Stop\<close> with \<open>err\<close> itself
  and leaves the inner backoff's state as it was: the inner backoff is not called. When
  the chain reaches a mark holding \<open>e\<close> (through wrappers \<open>pre\<close> that are not marks), the
  call is the inner backoff's call on \<open>e\<close>: its outcome and its state are passed through.
\<close>

theorem WithRetryable_filter:
  "(\<not> list_ex is_mark (error_chain err) \<longrightarrow> WithRetryable next err s = (Inr (Stop, err), s))
   \<and> (error_chain err = pre @ retryableError e # rest \<and> \<not> list_ex is_mark pre
        \<longrightarrow> WithRetryable next err s = next e s)"
  using errors_As_None [of err] errors_As_first [of err pre e rest]
  by (auto simp: WithRetryable_def)

theorem WithRetryable_filter_witness:
  "WithRetryable (recording 5) (Some (Leaf ''oops'')) [] = (Inr (Stop, Some (Leaf ''oops'')), [])
   \<and> WithRetryable (recording 5) (Some (Wrap ''ctx'' (retryableError (Some (Leaf ''oops''))))) []
       = (Inr (5, Some (Leaf ''oops'')), [Some (Leaf ''oops'')])"
  using WithRetryable_filter [where err = "Some (Leaf ''oops'')" and ?next = "recording 5" and s = "[]"]
    WithRetryable_filter [where err = "Some (Wrap ''ctx'' (retryableError (Some (Leaf ''oops''))))"
      and pre = "[Wrap ''ctx'' (retryableError (Some (Leaf ''oops'')))]" and e = "Some (Leaf ''oops'')"
      and rest = "[Leaf ''oops'']" and ?next = "recording 5" and s = "[]"]
  by (simp add: error_chain_def recording_def)

text \<open>
  C10. \<^verbatim>\<open>WithRetryable(inner).Next(nil)\<close> returns \<^verbatim>\<open>Stop\<close> with a \<^verbatim>\<open>nil\<close> error and
  leaves the inner backoff untouched, as for any error without a mark:
  \<^verbatim>\<open>RetryableError(nil)\<close> is \<^verbatim>\<open>nil\<close>, and the chain of \<^verbatim>\<open>nil\<close> is empty, so it holds
  no mark.
\<close>

theorem WithRetryable_nil:
  "WithRetryable next None s = (Inr (Stop, None), s)
   \<and> RetryableError None = None
   \<and> errors_As (RetryableError None) = None
   \<and> filter is_mark (error_chain None) = []"
  by (simp add: WithRetryable_def RetryableError_def errors_As_def error_chain_def)

theorem WithRetryable_nil_witness:
  "WithRetryable (recording 5) None [] = (Inr (Stop, None), [])"
  using WithRetryable_nil [of "recording 5" "[]"] by simp

section \<open>MaxRetries\<close>

lemma WithMaxRetries_below:
  "attempt < maxr \<Longrightarrow>
     WithMaxRetries maxr next err (attempt, s) = (fst (next err s), (attempt + 1, snd (next err s)))"
  by (simp add: WithMaxRetries_def split: prod.splits)

lemma WithMaxRetries_reached:
  "maxr \<le> attempt \<Longrightarrow> WithMaxRetries maxr next err (attempt, s) = (Inr (Stop, err), (attempt, s))"
  by (simp add: WithMaxRetries_def)

text \<open>Below the maximum the increment of the \<^verbatim>\<open>uint64\<close> counter cannot wrap.\<close>

lemma unat_succ_below:
  fixes attempt maxr :: "64 word"
  assumes "attempt < maxr"
  shows "unat (attempt + 1) = Suc (unat attempt)"
proof -
  from assms have "unat attempt < unat maxr" by (simp add: word_less_nat_alt)
  moreover have "unat maxr < 2 ^ 64" using unsigned_less [of maxr] by simp
  ultimately have "unat attempt + 1 < 2 ^ 64" by linarith
  then show ?thesis by (simp add: unat_word_ariths)
qed

lemma calls_all_stopped:
  "maxr \<le> attempt \<Longrightarrow>
     calls (WithMaxRetries maxr next) es (attempt, s) = (map (\<lambda>e. Inr (Stop, e)) es, (attempt, s))"
  by (induction es) (simp_all add: WithMaxRetries_reached)

lemma calls_WithMaxRetries_from:
  "attempt \<le> maxr \<Longrightarrow>
     calls (WithMaxRetries maxr next) es (attempt, s) =
       (case calls next (take (unat maxr - unat attempt) es) s of
          (rs, s') \<Rightarrow>
            (rs @ map (\<lambda>e. Inr (Stop, e)) (drop (unat maxr - unat attempt) es),
             (attempt + word_of_nat (min (length es) (unat maxr - unat attempt)), s')))"
proof (induction es arbitrary: attempt s)
  case Nil
  then show ?case by simp
next
  case (Cons e es)
  show ?case
  proof (cases "attempt < maxr")
    case False
    with Cons.prems have eq: "attempt = maxr" by simp
    show ?thesis
      by (simp add: eq calls_all_stopped [of maxr maxr] del: calls.simps(2))
  next
    case True
    then have suc: "unat (attempt + 1) = Suc (unat attempt)"
      by (rule unat_succ_below)
    from True have lt: "unat attempt < unat maxr"
      by (simp add: word_less_nat_alt)
    then obtain k where k: "unat maxr - unat attempt = Suc k"
      by (metis Suc_diff_Suc)
    then have k': "unat maxr - unat (attempt + 1) = k"
      using suc by simp
    from True have le: "attempt + 1 \<le> maxr"
      by (simp add: inc_le)
    obtain r s1 where n: "next e s = (r, s1)" by (cases "next e s")
    obtain rs s2 where c: "calls next (take k es) s1 = (rs, s2)"
      by (cases "calls next (take k es) s1")
    have step: "WithMaxRetries maxr next e (attempt, s) = (r, (attempt + 1, s1))"
      using WithMaxRetries_below [OF True, of "next" e s] n by simp
    show ?thesis
      using Cons.IH [OF le, of s1]
      by (simp add: step k k' n c add.assoc)
  qed
qed

text \<open>
  C1. A call of \<^verbatim>\<open>WithMaxRetries(max, inner).Next\<close> with the counter below \<open>max\<close> adds
  one to the counter (without wrapping) and is the inner backoff's call: its outcome and
  its new state. A call with the counter at \<open>max\<close> or beyond returns \<^verbatim>\<open>Stop\<close> with the
  error passed in and changes neither the counter nor the inner state. Hence, starting
  from the counter 0, any sequence of calls gives the inner backoff's outcomes on the
  first \<open>max\<close> errors, then \<^verbatim>\<open>Stop\<close> with each further error; the inner backoff has
  seen the first \<open>max\<close> errors only, and the counter ends at the number of calls or at
  \<open>max\<close>, whichever is less.
\<close>

theorem WithMaxRetries_counts:
  "(attempt < maxr \<longrightarrow>
      WithMaxRetries maxr next err (attempt, s)
        = (fst (next err s), (attempt + 1, snd (next err s)))
      \<and> unat (attempt + 1) = Suc (unat attempt))
   \<and> (maxr \<le> attempt \<longrightarrow>
      WithMaxRetries maxr next err (attempt, s) = (Inr (Stop, err), (attempt, s)))
   \<and> calls (WithMaxRetries maxr next) es (WithMaxRetries_init s) =
       (case calls next (take (unat maxr) es) s of
          (rs, s') \<Rightarrow>
            (rs @ map (\<lambda>e. Inr (Stop, e)) (drop (unat maxr) es),
             (word_of_nat (min (length es) (unat maxr)), s')))"
proof -
  have "calls (WithMaxRetries maxr next) es (0, s) =
       (case calls next (take (unat maxr - unat (0 :: 64 word)) es) s of
          (rs, s') \<Rightarrow>
            (rs @ map (\<lambda>e. Inr (Stop, e)) (drop (unat maxr - unat (0 :: 64 word)) es),
             (0 + word_of_nat (min (length es) (unat maxr - unat (0 :: 64 word))), s')))"
    by (rule calls_WithMaxRetries_from) simp
  then show ?thesis
    by (simp add: WithMaxRetries_init_def WithMaxRetries_below WithMaxRetries_reached
        unat_succ_below)
qed

theorem WithMaxRetries_counts_witness:
  "(0 :: 64 word) < 2
   \<and> WithMaxRetries 2 (recording 7) (Some (Leaf ''a'')) (0, []) = (Inr (7, Some (Leaf ''a'')), (1, [Some (Leaf ''a'')]))
   \<and> (2 :: 64 word) \<le> 2
   \<and> WithMaxRetries 2 (recording 7) (Some (Leaf ''a'')) (2, []) = (Inr (Stop, Some (Leaf ''a'')), (2, []))
   \<and> calls (WithMaxRetries 2 (recording 7)) [None, Some (Leaf ''a''), None] (WithMaxRetries_init [])
       = ([Inr (7, None), Inr (7, Some (Leaf ''a'')), Inr (Stop, None)], (2, [None, Some (Leaf ''a'')]))"
  using WithMaxRetries_counts [where attempt = 0 and maxr = 2 and ?next = "recording 7"
      and err = "Some (Leaf ''a'')" and s = "[]" and es = "[None, Some (Leaf ''a''), None]"]
    WithMaxRetries_counts [where attempt = 2 and maxr = 2 and ?next = "recording 7"
      and err = "Some (Leaf ''a'')" and s = "[]" and es = "[]"]
  by (simp add: recording_def)

section \<open>Signed 64-bit arithmetic\<close>

lemma sint_bounds64: "- (2 ^ 63) \<le> sint (a :: 64 word) \<and> sint a < 2 ^ 63"
  using sint_ge [of a] sint_lt [of a] by simp

lemma sint_add_exact:
  fixes a b :: "64 word"
  assumes "- (2 ^ 63) \<le> sint a + sint b" and "sint a + sint b < 2 ^ 63"
  shows "sint (a + b) = sint a + sint b"
  using assms by (simp add: sint_word_add signed_take_bit_int_eq_self)

lemma sint_sub_exact:
  fixes a b :: "64 word"
  assumes "- (2 ^ 63) \<le> sint a - sint b" and "sint a - sint b < 2 ^ 63"
  shows "sint (a - b) = sint a - sint b"
  using assms by (simp add: sint_word_diff signed_take_bit_int_eq_self)

lemma sint_twice_exact:
  fixes j :: "64 word"
  assumes "- (2 ^ 62) \<le> sint j" and "sint j < 2 ^ 62"
  shows "sint (j * 2) = 2 * sint j"
proof -
  have "sint (j + j) = sint j + sint j"
    using assms by (intro sint_add_exact) simp_all
  then show ?thesis by (simp add: mult_2_right)
qed

lemma sint_of_nat_exact:
  assumes "n < 2 ^ 63"
  shows "sint (word_of_nat n :: 64 word) = int n"
proof -
  have "sint (word_of_nat n :: 64 word) = signed_take_bit 63 (int n)"
    by (simp add: signed_of_nat)
  also have "\<dots> = int n"
    using assms by (intro signed_take_bit_int_eq_self) simp_all
  finally show ?thesis .
qed

lemma sint_of_int_exact:
  assumes "- (2 ^ 63) \<le> k" and "k < 2 ^ 63"
  shows "sint (word_of_int k :: 64 word) = k"
  using assms by (simp add: sint_sbintrunc' signed_take_bit_int_eq_self)

section \<open>Jitter\<close>

lemma IsStopped_sint: "IsStopped d \<longleftrightarrow> sint d < 0"
  by (simp add: IsStopped_def word_sless_alt)

lemma Int63n_range:
  assumes "0 < sint n"
  shows "\<exists>r. Int63n raw n = Inr r \<and> sint r = int raw mod sint n"
proof -
  have lt: "sint n < 2 ^ 63" using sint_bounds64 [of n] by simp
  have "raw mod nat (sint n) < nat (sint n)" using assms by simp
  moreover have "nat (sint n) < 2 ^ 63" using lt assms by (simp add: nat_less_iff)
  ultimately have "raw mod nat (sint n) < 2 ^ 63" by linarith
  then have "sint (word_of_nat (raw mod nat (sint n)) :: 64 word) = int (raw mod nat (sint n))"
    by (rule sint_of_nat_exact)
  also have "\<dots> = int raw mod sint n"
    using assms by (simp add: zmod_int)
  finally show ?thesis
    using assms by (simp add: Int63n_def word_sle_eq)
qed

lemma Int63n_panics: "sint n \<le> 0 \<Longrightarrow> Int63n raw n = Inl (Panic ''invalid argument to Int63n'')"
  by (simp add: Int63n_def word_sle_eq)


lemma WithJitter_stop:
  "next err s = (Inr (d, e), s') \<Longrightarrow> IsStopped d \<Longrightarrow>
     WithJitter j next raw err s = (Inr (Stop, e), s')"
  by (simp add: WithJitter_def)

lemma WithJitter_offset:
  assumes inner: "next err s = (Inr (d, e), s')"
    and d: "\<not> IsStopped d"
    and j: "0 < sint j" "sint j < 2 ^ 62"
    and fit: "sint d + sint j \<le> 2 ^ 63"
  shows "\<exists>r. WithJitter j next raw err s = (Inr (r, e), s')
           \<and> sint r = max 0 (sint d + (int raw mod (2 * sint j) - sint j))"
proof -
  have twice: "sint (j * 2) = 2 * sint j"
    using j by (intro sint_twice_exact) simp_all
  then have "0 < sint (j * 2)" using j by simp
  then obtain r0 where r0: "Int63n raw (j * 2) = Inr r0" "sint r0 = int raw mod sint (j * 2)"
    using Int63n_range by blast
  define off where "off = int raw mod (2 * sint j) - sint j"
  have r0_lo: "0 \<le> sint r0" and r0_hi: "sint r0 < 2 * sint j"
    using r0(2) twice j by simp_all
  have "sint (r0 - j) = sint r0 - sint j"
    using r0_lo r0_hi j by (intro sint_sub_exact) simp_all
  then have diff: "sint (r0 - j) = off"
    unfolding off_def using r0(2) twice by simp
  have off_lo: "- sint j \<le> off" and off_hi: "off < sint j"
    using diff r0_lo r0_hi j r0(2) twice unfolding off_def by simp_all
  have d0: "0 \<le> sint d" using d by (simp add: IsStopped_sint)
  have d1: "sint d < 2 ^ 63" using sint_bounds64 [of d] by simp
  have "sint (d + (r0 - j)) = sint d + sint (r0 - j)"
    using diff off_lo off_hi d0 d1 j fit by (intro sint_add_exact) simp_all
  then have sum: "sint (d + (r0 - j)) = sint d + off"
    using diff by simp
  show ?thesis
  proof (cases "IsStopped (d + (r0 - j))")
    case True
    then have "sint d + off < 0" using sum by (simp add: IsStopped_sint)
    moreover have "WithJitter j next raw err s = (Inr (0, e), s')"
      using inner d r0(1) True by (simp add: WithJitter_def)
    ultimately show ?thesis unfolding off_def by simp
  next
    case False
    then have "0 \<le> sint d + off" using sum by (simp add: IsStopped_sint)
    moreover have "WithJitter j next raw err s = (Inr (d + (r0 - j), e), s')"
      using inner d r0(1) False by (simp add: WithJitter_def)
    ultimately show ?thesis unfolding off_def using sum off_def by simp
  qed
qed

text \<open>
  C6, as the code has it. When the inner backoff stops, \<^verbatim>\<open>WithJitter(spread, inner).Next\<close>
  returns \<^verbatim>\<open>Stop\<close> with the inner backoff's error. When the inner backoff returns a
  delay \<open>d \<ge> 0\<close>, the spread is positive and below \<open>2^62\<close> (so that twice the spread
  is an \<^verbatim>\<open>int64\<close>) and \<open>d + spread\<close> is at most \<open>2^63\<close> (so that the sum cannot wrap),
  the result is \<open>d\<close> plus an offset of the half-open range from \<open>-spread\<close> to \<open>spread\<close>,
  a negative sum replaced by 0: it is at least \<open>max 0 (d - spread)\<close> and below
  \<open>d + spread\<close>.
\<close>

theorem WithJitter_range:
  "next err s = (Inr (d, e), s') \<Longrightarrow>
   (IsStopped d \<longrightarrow> WithJitter j next raw err s = (Inr (Stop, e), s'))
   \<and> (\<not> IsStopped d \<and> 0 < sint j \<and> sint j < 2 ^ 62 \<and> sint d + sint j \<le> 2 ^ 63 \<longrightarrow>
        (\<exists>r. WithJitter j next raw err s = (Inr (r, e), s')
           \<and> sint r = max 0 (sint d + (int raw mod (2 * sint j) - sint j))
           \<and> max 0 (sint d - sint j) \<le> sint r
           \<and> sint r < sint d + sint j))"
proof (intro conjI impI)
  assume "next err s = (Inr (d, e), s')" and "IsStopped d"
  then show "WithJitter j next raw err s = (Inr (Stop, e), s')"
    by (rule WithJitter_stop)
next
  assume inner: "next err s = (Inr (d, e), s')"
    and h: "\<not> IsStopped d \<and> 0 < sint j \<and> sint j < 2 ^ 62 \<and> sint d + sint j \<le> 2 ^ 63"
  then obtain r where r: "WithJitter j next raw err s = (Inr (r, e), s')"
      "sint r = max 0 (sint d + (int raw mod (2 * sint j) - sint j))"
    using WithJitter_offset [of "next" err s d e s' j raw] by blast
  define m where "m = int raw mod (2 * sint j)"
  have "0 \<le> m" and "m < 2 * sint j"
    using h by (simp_all add: m_def)
  moreover have "0 \<le> sint d" using h by (simp add: IsStopped_sint)
  moreover have "sint r = max 0 (sint d + (m - sint j))"
    using r(2) by (simp add: m_def)
  moreover have "0 < sint j" using h by simp
  ultimately have "max 0 (sint d - sint j) \<le> sint r \<and> sint r < sint d + sint j"
    by (simp add: max_def)
  with r show "\<exists>r. WithJitter j next raw err s = (Inr (r, e), s')
           \<and> sint r = max 0 (sint d + (int raw mod (2 * sint j) - sint j))
           \<and> max 0 (sint d - sint j) \<le> sint r
           \<and> sint r < sint d + sint j"
    by blast
qed

theorem WithJitter_range_witness:
  "recording 1000000000 None [] = (Inr (1000000000, None), [None])
   \<and> \<not> IsStopped 1000000000
   \<and> (\<exists>r. WithJitter 250000000 (recording 1000000000) 123456789123 None [] = (Inr (r, None), [None])
         \<and> sint r = 1206789123 \<and> 750000000 \<le> sint r \<and> sint r < 1250000000)"
proof -
  have h: "recording 1000000000 None [] = (Inr (1000000000, None), [None])"
    by (simp add: recording_def)
  show ?thesis
    using WithJitter_range [where ?next = "recording 1000000000" and err = None and s = "[]"
        and d = 1000000000 and e = None and s' = "[None]" and j = 250000000
        and raw = 123456789123]
    by (simp add: h IsStopped_sint)
qed

text \<open>
  The bounds on the spread and on the sum are needed. With a spread of \<open>2^62\<close>
  nanoseconds twice the spread wraps to a negative \<^verbatim>\<open>int64\<close> and \<^verbatim>\<open>rand.Int63n\<close>
  panics; with the greatest delay and a spread of 2 the sum wraps, is taken for a
  negative delay and becomes 0, far below \<open>d - spread\<close>.
\<close>

theorem WithJitter_range_counterexample:
  "0 < sint (4611686018427387904 :: duration)
   \<and> \<not> IsStopped 1000000000
   \<and> WithJitter 4611686018427387904 (recording 1000000000) 0 None []
       = (Inl (Panic ''invalid argument to Int63n''), [None])
   \<and> 0 < sint (2 :: duration)
   \<and> \<not> IsStopped 9223372036854775807
   \<and> WithJitter 2 (recording 9223372036854775807) 3 None [] = (Inr (0, None), [None])
   \<and> \<not> max 0 (sint (9223372036854775807 :: duration) - sint (2 :: duration)) \<le> sint (0 :: duration)"
  by (simp add: WithJitter_def recording_def Int63n_def IsStopped_def Stop_def word_sle_eq
      word_sless_alt)

text \<open>
  C7. With the percentage 0 the argument of \<^verbatim>\<open>rand.Int63n\<close> is \<open>0 * 2 = 0\<close>, and
  the call panics whatever the inner delay, the draw and the floating-point scaling
  are: whenever the inner backoff returns a delay that is not a stop,
  \<^verbatim>\<open>WithJitterPercent(0, inner).Next\<close> does not return.
\<close>

theorem WithJitterPercent_zero_panics:
  "next err s = (Inr (d, e), s') \<Longrightarrow> \<not> IsStopped d \<Longrightarrow>
     WithJitterPercent scale 0 next raw err s = (Inl (Panic ''invalid argument to Int63n''), s')"
  by (simp add: WithJitterPercent_def Int63n_panics)

theorem WithJitterPercent_zero_panics_witness:
  "recording 1000000000 None [] = (Inr (1000000000, None), [None])
   \<and> \<not> IsStopped 1000000000
   \<and> WithJitterPercent (\<lambda>d t. d) 0 (recording 1000000000) 7 None []
       = (Inl (Panic ''invalid argument to Int63n''), [None])"
proof -
  have h: "recording 1000000000 None [] = (Inr (1000000000, None), [None])"
    by (simp add: recording_def)
  have n: "\<not> IsStopped 1000000000"
    by (simp add: IsStopped_sint)
  show ?thesis
    using WithJitterPercent_zero_panics [where ?next = "recording 1000000000" and err = None
        and s = "[]" and d = 1000000000 and e = None and s' = "[None]"
        and scale = "\<lambda>d t. d" and raw = 7, OF h n] h n
    by simp
qed

section \<open>The additive mode\<close>

text \<open>
  In its symmetric mode the decorator with a mode is the decorator of \<^verbatim>\<open>backoff.go\<close>.
\<close>

lemma WithJitter_mode_symmetric: "WithJitter_mode j False next raw err s = WithJitter j next raw err s"
  by (simp add: WithJitter_mode_def WithJitter_def Let_def split: prod.splits sum.splits)






section \<open>CappedDuration\<close>

lemma WithCappedDuration_stop:
  "next err s = (Inr (d, e), s') \<Longrightarrow> IsStopped d \<Longrightarrow>
     WithCappedDuration cap next err s = (Inr (Stop, e), s')"
  by (simp add: WithCappedDuration_def)

text \<open>
  C4, as the code has it. An inner stop is passed on as \<^verbatim>\<open>Stop\<close> with the inner
  backoff's error. An inner delay that is 0 or exceeds the cap is replaced by the cap;
  a positive inner delay of at most the cap is returned as it is.
\<close>

theorem WithCappedDuration_caps:
  "next err s = (Inr (d, e), s') \<Longrightarrow>
   (IsStopped d \<longrightarrow> WithCappedDuration cap next err s = (Inr (Stop, e), s'))
   \<and> (\<not> IsStopped d \<and> (d = 0 \<or> cap <s d) \<longrightarrow>
        WithCappedDuration cap next err s = (Inr (cap, e), s'))
   \<and> (0 <s d \<and> d \<le>s cap \<longrightarrow> WithCappedDuration cap next err s = (Inr (d, e), s'))"
  by (auto simp: WithCappedDuration_def IsStopped_def word_sle_eq word_sless_alt)

theorem WithCappedDuration_caps_witness:
  "WithCappedDuration 3000000000 (recording (- 1)) None [] = (Inr (Stop, None), [None])
   \<and> WithCappedDuration 3000000000 (recording 5000000000) None [] = (Inr (3000000000, None), [None])
   \<and> WithCappedDuration 3000000000 (recording 0) None [] = (Inr (3000000000, None), [None])
   \<and> WithCappedDuration 3000000000 (recording 1000000000) None [] = (Inr (1000000000, None), [None])"
proof -
  have h: "recording d None [] = (Inr (d, None), [None])" for d
    by (simp add: recording_def)
  show ?thesis
    using
      WithCappedDuration_caps [where ?next = "recording (- 1)" and err = None and s = "[]"
        and d = "- 1" and e = None and s' = "[None]" and cap = 3000000000]
      WithCappedDuration_caps [where ?next = "recording 5000000000" and err = None and s = "[]"
        and d = 5000000000 and e = None and s' = "[None]" and cap = 3000000000]
      WithCappedDuration_caps [where ?next = "recording 0" and err = None and s = "[]"
        and d = 0 and e = None and s' = "[None]" and cap = 3000000000]
      WithCappedDuration_caps [where ?next = "recording 1000000000" and err = None and s = "[]"
        and d = 1000000000 and e = None and s' = "[None]" and cap = 3000000000]
    by (simp add: h IsStopped_def word_sle_eq word_sless_alt)
qed

text \<open>
  An inner delay of 0 is not above a cap of 5 nanoseconds, and yet the cap is returned
  in its place.
\<close>

theorem WithCappedDuration_caps_counterexample:
  "\<not> IsStopped 0 \<and> (0 :: duration) \<le>s 5
   \<and> WithCappedDuration 5 (recording 0) None [] = (Inr (5, None), [None])
   \<and> (5 :: duration) \<noteq> 0"
  by (simp add: WithCappedDuration_def recording_def IsStopped_def word_sle_eq word_sless_alt)

section \<open>MaxDuration\<close>

lemma time_Since_exact:
  assumes "- (2 ^ 63) \<le> now - start" and "now - start < 2 ^ 63"
  shows "sint (time_Since start now) = now - start"
proof -
  define k where "k = now - start"
  have "time_Since start now = word_of_int k"
    using assms unfolding time_Since_def Let_def k_def [symmetric] by simp
  moreover have "sint (word_of_int k :: 64 word) = k"
    using assms unfolding k_def [symmetric] by (rule sint_of_int_exact)
  ultimately show ?thesis by (simp add: k_def)
qed

lemma WithMaxDuration_expired:
  "timeout - time_Since start now \<le>s 0 \<Longrightarrow>
     WithMaxDuration timeout start next now err s = (Inr (Stop, err), s)"
  by (simp add: WithMaxDuration_def)

lemma WithMaxDuration_inner_panic:
  "0 <s timeout - time_Since start now \<Longrightarrow> next err s = (Inl p, s') \<Longrightarrow>
     WithMaxDuration timeout start next now err s = (Inl p, s')"
  by (simp add: WithMaxDuration_def word_sle_eq word_sless_alt)

lemma WithMaxDuration_inner_return:
  "0 <s timeout - time_Since start now \<Longrightarrow> next err s = (Inr (d, e), s') \<Longrightarrow>
     WithMaxDuration timeout start next now err s =
       (Inr (if IsStopped d then Stop
             else if d \<le>s 0 \<or> timeout - time_Since start now <s d
               then timeout - time_Since start now else d, e), s')"
  by (simp add: WithMaxDuration_def word_sle_eq word_sless_alt)

lemma WithMaxDuration_remaining:
  assumes "- (2 ^ 63) \<le> sint timeout - sint (time_Since start now)"
    and "sint timeout - sint (time_Since start now) < 2 ^ 63"
  shows "sint (timeout - time_Since start now) = sint timeout - sint (time_Since start now)"
  using assms by (rule sint_sub_exact)

text \<open>
  C3, as the code has it. Let \<open>remaining\<close> be the timeout minus the time since the
  decorator was built (the clock's difference whenever that is an \<^verbatim>\<open>int64\<close>), and let
  \<open>remaining\<close> itself be an \<^verbatim>\<open>int64\<close>. If \<open>remaining \<le> 0\<close>, a call of
  \<^verbatim>\<open>WithMaxDuration(timeout, inner).Next\<close> returns \<^verbatim>\<open>Stop\<close> with the error passed in
  and leaves the inner backoff untouched. Otherwise it calls the inner backoff: an inner
  stop is passed on as \<^verbatim>\<open>Stop\<close>; an inner delay that is not positive or exceeds
  \<open>remaining\<close> is replaced by \<open>remaining\<close>; any other inner delay is returned as it
  is. So a delay that is returned is positive and at most \<open>remaining\<close>.
\<close>

theorem WithMaxDuration_budget:
  "let remaining = sint timeout - sint (time_Since start now) in
   - (2 ^ 63) \<le> remaining \<and> remaining < 2 ^ 63 \<longrightarrow>
     (remaining \<le> 0 \<longrightarrow> WithMaxDuration timeout start next now err s = (Inr (Stop, err), s))
     \<and> (0 < remaining \<and> next err s = (Inl p, s') \<longrightarrow>
          WithMaxDuration timeout start next now err s = (Inl p, s'))
     \<and> (0 < remaining \<and> next err s = (Inr (d, e), s') \<longrightarrow>
          (IsStopped d \<longrightarrow> WithMaxDuration timeout start next now err s = (Inr (Stop, e), s'))
          \<and> (\<not> IsStopped d \<and> (sint d \<le> 0 \<or> remaining < sint d) \<longrightarrow>
               (\<exists>r. WithMaxDuration timeout start next now err s = (Inr (r, e), s')
                  \<and> sint r = remaining))
          \<and> (\<not> IsStopped d \<and> 0 < sint d \<and> sint d \<le> remaining \<longrightarrow>
               WithMaxDuration timeout start next now err s = (Inr (d, e), s'))
          \<and> (\<exists>r. WithMaxDuration timeout start next now err s = (Inr (r, e), s')
                \<and> (r = Stop \<or> 0 < sint r \<and> sint r \<le> remaining)))
     \<and> (- (2 ^ 63) \<le> now - start \<and> now - start < 2 ^ 63 \<longrightarrow>
          remaining = sint timeout - (now - start))"
proof -
  define remaining where "remaining = sint timeout - sint (time_Since start now)"
  define diff where "diff = timeout - time_Since start now"
  have main: "(remaining \<le> 0 \<longrightarrow> WithMaxDuration timeout start next now err s = (Inr (Stop, err), s))
     \<and> (0 < remaining \<and> next err s = (Inl p, s') \<longrightarrow>
          WithMaxDuration timeout start next now err s = (Inl p, s'))
     \<and> (0 < remaining \<and> next err s = (Inr (d, e), s') \<longrightarrow>
          (IsStopped d \<longrightarrow> WithMaxDuration timeout start next now err s = (Inr (Stop, e), s'))
          \<and> (\<not> IsStopped d \<and> (sint d \<le> 0 \<or> remaining < sint d) \<longrightarrow>
               (\<exists>r. WithMaxDuration timeout start next now err s = (Inr (r, e), s')
                  \<and> sint r = remaining))
          \<and> (\<not> IsStopped d \<and> 0 < sint d \<and> sint d \<le> remaining \<longrightarrow>
               WithMaxDuration timeout start next now err s = (Inr (d, e), s'))
          \<and> (\<exists>r. WithMaxDuration timeout start next now err s = (Inr (r, e), s')
                \<and> (r = Stop \<or> 0 < sint r \<and> sint r \<le> remaining)))"
    if fit: "- (2 ^ 63) \<le> remaining" "remaining < 2 ^ 63"
  proof -
    have exact: "sint diff = remaining"
      unfolding diff_def remaining_def using fit [unfolded remaining_def]
      by (rule WithMaxDuration_remaining)
    have expired: "remaining \<le> 0 \<longrightarrow>
        WithMaxDuration timeout start next now err s = (Inr (Stop, err), s)"
      using exact WithMaxDuration_expired [of timeout start now "next" err s]
      by (simp add: diff_def word_sle_eq)
    have panic: "0 < remaining \<and> next err s = (Inl p, s') \<longrightarrow>
        WithMaxDuration timeout start next now err s = (Inl p, s')"
      using exact WithMaxDuration_inner_panic [of timeout start now "next" err s p s']
      by (simp add: diff_def word_sless_alt)
    have ret: "(IsStopped d \<longrightarrow> WithMaxDuration timeout start next now err s = (Inr (Stop, e), s'))
          \<and> (\<not> IsStopped d \<and> (sint d \<le> 0 \<or> remaining < sint d) \<longrightarrow>
               (\<exists>r. WithMaxDuration timeout start next now err s = (Inr (r, e), s')
                  \<and> sint r = remaining))
          \<and> (\<not> IsStopped d \<and> 0 < sint d \<and> sint d \<le> remaining \<longrightarrow>
               WithMaxDuration timeout start next now err s = (Inr (d, e), s'))
          \<and> (\<exists>r. WithMaxDuration timeout start next now err s = (Inr (r, e), s')
                \<and> (r = Stop \<or> 0 < sint r \<and> sint r \<le> remaining))"
      if pos: "0 < remaining" and inner: "next err s = (Inr (d, e), s')"
    proof -
      have "0 <s timeout - time_Since start now"
        using pos exact by (simp add: diff_def word_sless_alt)
      then have eq: "WithMaxDuration timeout start next now err s =
         (Inr (if IsStopped d then Stop
               else if d \<le>s 0 \<or> diff <s d then diff else d, e), s')"
        unfolding diff_def using inner by (rule WithMaxDuration_inner_return)
      show ?thesis
        unfolding eq using pos exact
        by (auto simp: IsStopped_sint word_sle_eq word_sless_alt)
    qed
    from expired panic ret show ?thesis by blast
  qed
  have clock: "- (2 ^ 63) \<le> now - start \<and> now - start < 2 ^ 63 \<longrightarrow>
      remaining = sint timeout - (now - start)"
    unfolding remaining_def by (simp add: time_Since_exact)
  show ?thesis
    unfolding Let_def remaining_def [symmetric]
    using main clock by blast
qed

theorem WithMaxDuration_budget_witness:
  "sint (250000000 :: duration) - sint (time_Since 0 200000000) = 50000000
   \<and> (\<exists>r. WithMaxDuration 250000000 0 (recording 1000000000) 200000000 None []
          = (Inr (r, None), [None]) \<and> sint r = 50000000)
   \<and> WithMaxDuration 250000000 0 (recording 20000000) 200000000 None [] = (Inr (20000000, None), [None])
   \<and> WithMaxDuration 250000000 0 (recording (- 7)) 200000000 None [] = (Inr (Stop, None), [None])
   \<and> WithMaxDuration 250000000 0 (recording 1000000000) 250000000 (Some (Leaf ''oops'')) []
       = (Inr (Stop, Some (Leaf ''oops'')), [])"
proof -
  have h: "recording d None [] = (Inr (d, None), [None])" for d
    by (simp add: recording_def)
  have t1: "time_Since 0 200000000 = 200000000" and t2: "time_Since 0 250000000 = 250000000"
    by (simp_all add: time_Since_def)
  show ?thesis
    using
      WithMaxDuration_budget [where timeout = 250000000 and start = 0 and now = 200000000
        and ?next = "recording 1000000000" and err = None and s = "[]" and d = 1000000000
        and e = None and s' = "[None]"]
      WithMaxDuration_budget [where timeout = 250000000 and start = 0 and now = 200000000
        and ?next = "recording 20000000" and err = None and s = "[]" and d = 20000000
        and e = None and s' = "[None]"]
      WithMaxDuration_budget [where timeout = 250000000 and start = 0 and now = 200000000
        and ?next = "recording (- 7)" and err = None and s = "[]" and d = "- 7"
        and e = None and s' = "[None]"]
      WithMaxDuration_budget [where timeout = 250000000 and start = 0 and now = 250000000
        and ?next = "recording 1000000000" and err = "Some (Leaf ''oops'')" and s = "[]"]
    by (simp add: h t1 t2 IsStopped_sint)
qed

text \<open>
  The bound on \<open>remaining\<close> is needed. With the least \<^verbatim>\<open>int64\<close> as timeout, one
  nanosecond after the decorator was built the remaining time is negative, but the
  \<^verbatim>\<open>int64\<close> subtraction wraps to the greatest duration: the inner backoff is called and
  its delay of 1s is returned.
\<close>

theorem WithMaxDuration_budget_counterexample:
  "sint (- 9223372036854775808 :: duration) - sint (time_Since 0 1) = - 9223372036854775809
   \<and> WithMaxDuration (- 9223372036854775808) 0 (recording 1000000000) 1 None []
       = (Inr (1000000000, None), [None])"
  by (simp add: WithMaxDuration_def time_Since_def recording_def IsStopped_def word_sle_eq
      word_sless_alt)

section \<open>The durations the decorators return\<close>

lemma WithJitter_output:
  "WithJitter j next raw err s = (Inr (r, e), s') \<Longrightarrow> 0 \<le>s r \<or> r = Stop"
  by (auto simp: WithJitter_def IsStopped_def Let_def word_sle_eq word_sless_alt
      split: prod.splits sum.splits if_splits)

lemma WithJitterPercent_stop:
  "next err s = (Inr (d, e), s') \<Longrightarrow> IsStopped d \<Longrightarrow>
     WithJitterPercent scale p next raw err s = (Inr (Stop, e), s')"
  by (simp add: WithJitterPercent_def)

lemma WithJitterPercent_output:
  "WithJitterPercent scale p next raw err s = (Inr (r, e), s') \<Longrightarrow> 0 \<le>s r \<or> r = Stop"
  by (auto simp: WithJitterPercent_def IsStopped_def Let_def word_sle_eq word_sless_alt
      split: prod.splits sum.splits if_splits)

lemma WithMaxDuration_output:
  "WithMaxDuration timeout start next now err s = (Inr (r, e), s') \<Longrightarrow> 0 \<le>s r \<or> r = Stop"
  by (auto simp: WithMaxDuration_def IsStopped_def Let_def word_sle_eq word_sless_alt
      split: prod.splits sum.splits if_splits)

lemma WithMaxDuration_stop:
  "next err s = (Inr (d, e), s') \<Longrightarrow> IsStopped d \<Longrightarrow>
     fst (WithMaxDuration timeout start next now err s) \<in> {Inr (Stop, e), Inr (Stop, err)}"
  by (simp add: WithMaxDuration_def Let_def)

lemma WithCappedDuration_output:
  "WithCappedDuration cap next err s = (Inr (r, e), s') \<Longrightarrow> 0 \<le>s r \<or> r = Stop \<or> r = cap"
  by (auto simp: WithCappedDuration_def IsStopped_def Let_def word_sle_eq word_sless_alt
      split: prod.splits sum.splits if_splits)

lemma WithCappedDuration_output_cap:
  assumes "- 1 \<le>s cap" and "WithCappedDuration cap next err s = (Inr (r, e), s')"
  shows "0 \<le>s r \<or> r = Stop"
proof -
  from assms(2) have "0 \<le>s r \<or> r = Stop \<or> r = cap"
    by (rule WithCappedDuration_output)
  moreover have "0 \<le>s cap \<or> cap = Stop"
  proof (cases "0 \<le>s cap")
    case False
    then have "sint cap = - 1" using assms(1) by (simp add: word_sle_eq)
    then have "sint cap = sint (- 1 :: 64 word)" by simp
    then have "cap = - 1" by (rule signed_word_eqI)
    then show ?thesis by (simp add: Stop_def)
  qed simp
  ultimately show ?thesis by blast
qed

text \<open>
  C9, as the code has it. Whatever the inner backoff and the inputs, a duration that
  \<^verbatim>\<open>WithJitter\<close>, \<^verbatim>\<open>WithJitterPercent\<close> or \<^verbatim>\<open>WithMaxDuration\<close> returns is
  non-negative or exactly \<^verbatim>\<open>Stop\<close>; a duration that \<^verbatim>\<open>WithCappedDuration\<close> returns
  is non-negative, exactly \<^verbatim>\<open>Stop\<close>, or the cap itself, hence non-negative or
  \<^verbatim>\<open>Stop\<close> whenever the cap is at least \<open>-1\<close>. Any negative duration of the inner
  backoff, not only \<open>-1\<close>, is answered by exactly \<^verbatim>\<open>Stop\<close>.
\<close>

theorem decorators_output:
  "(WithJitter j next raw err s = (Inr (r, e), s') \<longrightarrow> 0 \<le>s r \<or> r = Stop)
   \<and> (WithJitterPercent scale p next raw err s = (Inr (r, e), s') \<longrightarrow> 0 \<le>s r \<or> r = Stop)
   \<and> (WithMaxDuration timeout start next now err s = (Inr (r, e), s') \<longrightarrow> 0 \<le>s r \<or> r = Stop)
   \<and> (WithCappedDuration cap next err s = (Inr (r, e), s') \<longrightarrow> 0 \<le>s r \<or> r = Stop \<or> r = cap)
   \<and> (- 1 \<le>s cap \<and> WithCappedDuration cap next err s = (Inr (r, e), s')
        \<longrightarrow> 0 \<le>s r \<or> r = Stop)
   \<and> (next err s = (Inr (d, e), s') \<and> IsStopped d \<longrightarrow>
        WithJitter j next raw err s = (Inr (Stop, e), s')
        \<and> WithJitterPercent scale p next raw err s = (Inr (Stop, e), s')
        \<and> WithCappedDuration cap next err s = (Inr (Stop, e), s')
        \<and> fst (WithMaxDuration timeout start next now err s) \<in> {Inr (Stop, e), Inr (Stop, err)})"
  using WithJitter_output [of j "next" raw err s r e s']
    WithJitterPercent_output [of scale p "next" raw err s r e s']
    WithMaxDuration_output [of timeout start "next" now err s r e s']
    WithCappedDuration_output [of cap "next" err s r e s']
    WithCappedDuration_output_cap [of cap "next" err s r e s']
    WithJitter_stop [of "next" err s d e s' j raw]
    WithJitterPercent_stop [of "next" err s d e s' scale p raw]
    WithCappedDuration_stop [of "next" err s d e s' cap]
    WithMaxDuration_stop [of "next" err s d e s' timeout start now]
  by blast

theorem decorators_output_witness:
  "WithJitter 250000000 (recording 1000000000) 250000000 None [] = (Inr (1000000000, None), [None])
   \<and> WithJitterPercent (\<lambda>d t. d) 5 (recording 1000000000) 5 None [] = (Inr (1000000000, None), [None])
   \<and> WithMaxDuration 5000000000 0 (recording 1000000000) 0 None [] = (Inr (1000000000, None), [None])
   \<and> WithCappedDuration 3000000000 (recording 1000000000) None [] = (Inr (1000000000, None), [None])
   \<and> - 1 \<le>s (3000000000 :: duration)
   \<and> 0 \<le>s (1000000000 :: duration)
   \<and> recording (- 7) None [] = (Inr (- 7, None), [None]) \<and> IsStopped (- 7)
   \<and> WithJitter 250000000 (recording (- 7)) 250000000 None [] = (Inr (Stop, None), [None])
   \<and> WithJitterPercent (\<lambda>d t. d) 5 (recording (- 7)) 5 None [] = (Inr (Stop, None), [None])
   \<and> WithCappedDuration 3000000000 (recording (- 7)) None [] = (Inr (Stop, None), [None])
   \<and> fst (WithMaxDuration 5000000000 0 (recording (- 7)) 0 None []) = Inr (Stop, None)"
proof -
  have t: "time_Since 0 0 = 0"
    by (simp add: time_Since_def)
  show ?thesis
    using
      decorators_output [where j = 250000000 and ?next = "recording 1000000000"
        and raw = 250000000 and err = None and s = "[]" and r = 1000000000 and e = None
        and s' = "[None]" and scale = "\<lambda>d t. d" and p = 5 and timeout = 5000000000
        and start = 0 and now = 0 and cap = 3000000000 and d = 1000000000]
      decorators_output [where j = 250000000 and ?next = "recording (- 7)"
        and raw = 250000000 and err = None and s = "[]" and r = Stop and e = None
        and s' = "[None]" and scale = "\<lambda>d t. d" and p = 5 and timeout = 5000000000
        and start = 0 and now = 0 and cap = 3000000000 and d = "- 7"]
    by (simp add: t WithJitter_def WithJitterPercent_def WithMaxDuration_def
        WithCappedDuration_def recording_def Int63n_def IsStopped_def word_sle_eq
        word_sless_alt)
qed

text \<open>
  With a cap of \<open>-5\<close> nanoseconds every inner delay exceeds the cap, and the cap is
  returned: a negative duration that is not \<^verbatim>\<open>Stop\<close>.
\<close>

theorem decorators_output_counterexample:
  "WithCappedDuration (- 5) (recording 1000000000) None [] = (Inr (- 5, None), [None])
   \<and> \<not> 0 \<le>s (- 5 :: duration)
   \<and> (- 5 :: duration) \<noteq> Stop"
  by (simp add: WithCappedDuration_def recording_def IsStopped_def Stop_def word_sle_eq
      word_sless_alt)

end
